theory Spec2Isabelle
  imports Complex_Main
begin

unbundle bit_operations_syntax

section \<open>Python strings\<close>

text \<open>
  A Python \<open>str\<close> is a sequence of Unicode code points and \<open>len\<close> counts code points, so
  a string is modelled as the list of its code points. \<open>py\<close> turns an ASCII literal into
  such a list.
\<close>

type_synonym pystr = "nat list"

definition py :: "string \<Rightarrow> pystr" where
  "py s = map of_char s"

text \<open>The characters that \<open>str.isspace\<close> accepts, which are the ones \<open>str.strip()\<close> removes.\<close>

definition isspace :: "nat \<Rightarrow> bool" where
  "isspace c \<longleftrightarrow>
     (9 \<le> c \<and> c \<le> 13) \<or> (28 \<le> c \<and> c \<le> 32) \<or> c = 133 \<or> c = 160 \<or> c = 5760 \<or>
     (8192 \<le> c \<and> c \<le> 8202) \<or> c = 8232 \<or> c = 8233 \<or> c = 8239 \<or> c = 8287 \<or> c = 12288"

definition strip :: "pystr \<Rightarrow> pystr" where
  "strip s = rev (dropWhile isspace (rev (dropWhile isspace s)))"

section \<open>Data model\<close>

text \<open>An element of \<open>conversation\<close>: the dict \<open>{'name': ..., 'content': ...}\<close>.\<close>

record entry =
  name :: pystr
  content :: pystr

text \<open>
  An element of \<open>chat_history\<close>: the dict \<open>{'role': ..., 'content': ...}\<close>; its \<open>'content'\<close>
  key is the field \<open>chat_content\<close>.
\<close>

record chat_entry =
  role :: pystr
  chat_content :: pystr

text \<open>The dict held by \<open>debate_state\<close>.\<close>

record debate_state =
  running :: bool
  conversation :: "entry list"
  chat_history :: "chat_entry list"
  message_count :: int
  current_agent_index :: "int option"

text \<open>An element of \<open>agents\<close>; the key \<open>'name'\<close> is the field \<open>agent_name\<close>.\<close>

record agent =
  agent_name :: pystr
  system_prompt :: pystr
  model :: pystr
  temperature :: real
  top_k :: int
  memory_size :: int
  memory :: pystr

text \<open>
  The exceptions that the code can raise. \<open>ValueError\<close> stands for its two subclasses that
  line 316 raises on a line that is not JSON: UnicodeDecodeError from \<open>decode\<close> and
  JSONDecodeError from \<open>json.loads\<close>. \<open>RecursionError\<close> is what \<open>json.loads\<close> raises on a
  line nested deeper than the interpreter's recursion limit.
\<close>

datatype error = IndexError | ValueError | TypeError | RecursionError

section \<open>The memory window (lines 271 to 279)\<close>

text \<open>The f-string \<open>f"{msg['name']}: {msg['content']}\n"\<close>.\<close>

definition msg_text :: "entry \<Rightarrow> pystr" where
  "msg_text msg = name msg @ py '': '' @ content msg @ [10]"

text \<open>
  The \<open>for\<close> loop over \<open>reversed(conversation)\<close>, with the two variables it updates; the
  \<open>break\<close> returns the text built so far.
\<close>

fun memory_loop :: "int \<Rightarrow> entry list \<Rightarrow> pystr \<Rightarrow> int \<Rightarrow> pystr" where
  "memory_loop budget [] memory_text memory_length = memory_text"
| "memory_loop budget (msg # msgs) memory_text memory_length =
     (let memory_length = memory_length + int (length (msg_text msg))
      in if memory_length > budget then memory_text
         else memory_loop budget msgs (msg_text msg @ memory_text) memory_length)"

definition memory_window :: "entry list \<Rightarrow> int \<Rightarrow> pystr" where
  "memory_window conv budget = memory_loop budget (rev conv) [] 0"

text \<open>The combined length of the formatted entries of a piece of history.\<close>

definition text_length :: "entry list \<Rightarrow> int" where
  "text_length es = (\<Sum>e\<leftarrow>es. int (length (msg_text e)))"

text \<open>The newest \<open>k\<close> entries of a history, oldest of them first.\<close>

definition newest :: "nat \<Rightarrow> 'a list \<Rightarrow> 'a list" where
  "newest k xs = drop (length xs - k) xs"

section \<open>Reset (lines 382 to 391)\<close>

text \<open>
  \<open>reset_debate\<close> assigns the five keys; the tuple it returns goes to the widgets and is
  left out.
\<close>

definition reset_debate :: "debate_state \<Rightarrow> debate_state" where
  "reset_debate ds =
     ds\<lparr>running := False, conversation := [], chat_history := [], message_count := 0,
        current_agent_index := None\<rparr>"

section \<open>Indexing as Python does it\<close>

text \<open>
  The subscript \<open>xs[i]\<close> of a list with an integer: from the front when \<open>i\<close> is not
  negative, from the back when it is, and an IndexError outside \<open>-len(xs) .. len(xs) - 1\<close>.
\<close>

definition py_get :: "'a list \<Rightarrow> int \<Rightarrow> error + 'a" where
  "py_get xs i =
     (if 0 \<le> i \<and> i < int (length xs) then Inr (xs ! nat i)
      else if i < 0 \<and> - int (length xs) \<le> i then Inr (xs ! nat (int (length xs) + i))
      else Inl IndexError)"

text \<open>\<open>xs[-1][key] = v\<close>, as the function \<open>f\<close> that stores \<open>v\<close> under the key.\<close>

definition set_last :: "('a \<Rightarrow> 'a) \<Rightarrow> 'a list \<Rightarrow> error + 'a list" where
  "set_last f xs = (if xs = [] then Inl IndexError else Inr (butlast xs @ [f (last xs)]))"

section \<open>The records of a response stream\<close>

text \<open>
  What \<open>json.loads\<close> returns: an object is the list of its items (\<open>map_of\<close> looks a key
  up), and numbers, booleans and null, which the loop treats alike, are \<open>JOther\<close>.
\<close>

datatype json = JObj "(pystr \<times> json) list" | JArr "json list" | JStr pystr | JOther

text \<open>
  One item of \<open>response.iter_lines()\<close>: an empty line, a non-empty line on which
  \<open>json.loads(line.decode('utf-8'))\<close> raises, with the exception raised (\<open>ValueError\<close> or
  \<open>RecursionError\<close>), or a non-empty line with the value it parses to. A stream is the list
  of the lines that arrive; a connection that breaks while the lines are read is not among
  the cases.
\<close>

datatype line = Blank | Malformed error | Parsed json

text \<open>\<open>needle in s\<close> on strings.\<close>

definition substring :: "pystr \<Rightarrow> pystr \<Rightarrow> bool" where
  "substring needle s = (\<exists>i \<in> set [0 ..< Suc (length s)]. take (length needle) (drop i s) = needle)"

text \<open>
  Lines 317 to 319 on a parsed record: \<open>Inr None\<close> when \<open>'response' in json_response\<close> is
  false, \<open>Inr (Some partial_response)\<close> when the fragment can be appended to
  \<open>full_response\<close>, and the TypeError that Python raises otherwise (membership in a number,
  a string key on a list or a string, \<open>str + non-str\<close>).
\<close>

definition fragment :: "json \<Rightarrow> error + pystr option" where
  "fragment json_response =
     (case json_response of
        JObj items \<Rightarrow>
          (case map_of items (py ''response'') of
             None \<Rightarrow> Inr None
           | Some (JStr partial_response) \<Rightarrow> Inr (Some partial_response)
           | Some _ \<Rightarrow> Inl TypeError)
      | JArr xs \<Rightarrow> (if JStr (py ''response'') \<in> set xs then Inl TypeError else Inr None)
      | JStr s \<Rightarrow> (if substring (py ''response'') s then Inl TypeError else Inr None)
      | JOther \<Rightarrow> Inl TypeError)"

section \<open>The run of \<open>start_debate\<close>\<close>

text \<open>
  One tuple yielded to the widgets: the chat and the status (\<open>None\<close> for \<open>gr.update()\<close>, no
  change) and the \<open>interactive\<close> flags of the two buttons.
\<close>

record ui_update =
  chat :: "chat_entry list option"
  status :: "pystr option"
  start_button :: bool
  stop_button :: bool

text \<open>The arguments of one call of \<open>generate_output\<close>.\<close>

record request =
  req_url :: pystr
  req_model :: pystr
  req_prompt :: pystr
  req_temperature :: real
  req_top_k :: int
  req_stop :: "pystr list"

text \<open>
  The generator's frame. \<open>st\<close> is the dict \<open>debate_state\<close>; the local names \<open>conversation\<close>
  and \<open>chat_history\<close> refer to the lists held in it, so they have no field of their own.
  \<open>loc_message_count\<close> and \<open>loc_current_agent_index\<close> are the local variables
  \<open>message_count\<close> and \<open>current_agent_index\<close>, which the code copies into the dict at
  given points only. The remaining fields record what crosses the boundary of the function:
  \<open>out\<close> the tuples yielded so far, \<open>calls\<close> the generation calls made, \<open>clicks\<close> whether
  \<open>stop_debate\<close> runs during each coming suspension at a \<open>yield\<close> (none once the list is
  used up), and \<open>completed\<close> the dict as it stands at line 362 of every iteration that got
  there. The runs described are those in which nothing but \<open>stop_debate\<close> touches the dict
  while the generator is suspended; a \<open>reset_debate\<close> at that moment would put new lists
  into the dict and leave the local names on the old ones.
\<close>

record run =
  st :: debate_state
  loc_message_count :: int
  loc_current_agent_index :: int
  status_text :: pystr
  out :: "ui_update list"
  calls :: "request list"
  clicks :: "bool list"
  completed :: "debate_state list"

text \<open>Lines 375 to 380; the returned tuple goes to the widgets.\<close>

definition stop_debate :: "debate_state \<Rightarrow> debate_state" where
  "stop_debate ds = ds\<lparr>running := False\<rparr>"

text \<open>
  A \<open>yield\<close> after which the generator goes on: the tuple is recorded, and \<open>stop_debate\<close>
  runs on the dict if the Stop button is clicked during the suspension.
\<close>

definition yield_ui :: "ui_update \<Rightarrow> run \<Rightarrow> run" where
  "yield_ui u r =
     (case clicks r of
        [] \<Rightarrow> r\<lparr>out := out r @ [u]\<rparr>
      | c # cs \<Rightarrow> r\<lparr>st := (if c then stop_debate (st r) else st r), out := out r @ [u], clicks := cs\<rparr>)"

text \<open>The tuple yielded while a debate runs: chat, status, Start disabled, Stop enabled.\<close>

definition progress :: "run \<Rightarrow> ui_update" where
  "progress r =
     \<lparr>chat = Some (chat_history (st r)), status = Some (status_text r),
      start_button = False, stop_button = True\<rparr>"

text \<open>The tuple yielded when it has ended: Start enabled, Stop disabled.\<close>

definition halted :: "run \<Rightarrow> ui_update" where
  "halted r =
     \<lparr>chat = Some (chat_history (st r)), status = Some (status_text r),
      start_button = True, stop_button = False\<rparr>"

text \<open>An exception leaves the generator with the frame as it was when raised.\<close>

type_synonym 'a result = "(error \<times> run) + 'a"

text \<open>
  The \<open>for\<close> loop over \<open>response.iter_lines()\<close> (lines 312 to 329), from the lines still
  to come and the value of \<open>full_response\<close>; it returns \<open>full_response\<close> with the frame.
\<close>

fun consume :: "agent \<Rightarrow> line list \<Rightarrow> pystr \<Rightarrow> run \<Rightarrow> (pystr \<times> run) result" where
  "consume agent [] full_response r = Inr (full_response, r)"
| "consume agent (l # ls) full_response r =
     (if \<not> running (st r) then Inr (full_response, r)
      else case l of
        Blank \<Rightarrow> consume agent ls full_response r
      | Malformed e \<Rightarrow> Inl (e, r)
      | Parsed json_response \<Rightarrow>
          (case fragment json_response of
             Inl e \<Rightarrow> Inl (e, r)
           | Inr None \<Rightarrow> consume agent ls full_response r
           | Inr (Some partial_response) \<Rightarrow>
               (let full_response = full_response @ partial_response
                in case set_last (\<lambda>m. m\<lparr>chat_content := agent_name agent @ py '': '' @ full_response\<rparr>)
                          (chat_history (st r)) of
                     Inl e \<Rightarrow> Inl (e, r)
                   | Inr ch \<Rightarrow>
                       (let r = r\<lparr>st := (st r)\<lparr>chat_history := ch\<rparr>\<rparr>
                        in case set_last (\<lambda>m. m\<lparr>content := full_response\<rparr>) (conversation (st r)) of
                             Inl e \<Rightarrow> Inl (e, r)
                           | Inr cv \<Rightarrow>
                               (let r = r\<lparr>st := (st r)\<lparr>conversation := cv\<rparr>\<rparr>;
                                    r = r\<lparr>status_text := agent_name agent @ py '' is typing...''\<rparr>
                                in consume agent ls full_response (yield_ui (progress r) r))))))"

section \<open>One turn\<close>

text \<open>
  The arguments of \<open>start_debate\<close> that come from the form; the four slider values of
  \<open>top_k\<close> and \<open>memory_size\<close> are taken as the integers that \<open>int(...)\<close> makes of them.
\<close>

record params =
  topic_text :: pystr
  stage_rules_text :: pystr
  agent1_name_text :: pystr
  agent1_system_prompt_text :: pystr
  agent1_model_name :: pystr
  agent1_temperature_value :: real
  agent1_top_k_value :: int
  agent1_memory_size_value :: int
  agent2_name_text :: pystr
  agent2_system_prompt_text :: pystr
  agent2_model_name :: pystr
  agent2_temperature_value :: real
  agent2_top_k_value :: int
  agent2_memory_size_value :: int
  ollama_url_input :: pystr

text \<open>\<open>x.strip() or d\<close>: the empty string is false.\<close>

definition strip_or :: "pystr \<Rightarrow> pystr \<Rightarrow> pystr" where
  "strip_or x d = (if strip x = [] then d else strip x)"

text \<open>Lines 230 to 249.\<close>

definition agents :: "params \<Rightarrow> agent list" where
  "agents p =
     [\<lparr>agent_name = strip_or (agent1_name_text p) (py ''Agent 1''),
       system_prompt = strip (agent1_system_prompt_text p),
       model = agent1_model_name p,
       temperature = agent1_temperature_value p,
       top_k = agent1_top_k_value p,
       memory_size = agent1_memory_size_value p,
       memory = []\<rparr>,
      \<lparr>agent_name = strip_or (agent2_name_text p) (py ''Agent 2''),
       system_prompt = strip (agent2_system_prompt_text p),
       model = agent2_model_name p,
       temperature = agent2_temperature_value p,
       top_k = agent2_top_k_value p,
       memory_size = agent2_memory_size_value p,
       memory = []\<rparr>]"

text \<open>
  Lines 269 to 298 up to the call: the agent whose turn it is and the arguments that
  \<open>generate_output\<close> receives.
\<close>

definition turn_request :: "params \<Rightarrow> run \<Rightarrow> error + (agent \<times> request)" where
  "turn_request p r =
     (case py_get (agents p) (loc_current_agent_index r) of
        Inl e \<Rightarrow> Inl e
      | Inr agent \<Rightarrow>
          (let memory_text = memory_window (conversation (st r)) (memory_size agent);
               prompt = system_prompt agent @ [10, 10] @ strip (stage_rules_text p) @ [10, 10] @
                        py ''Topic: '' @ strip (topic_text p) @ [10, 10] @
                        memory_text @ agent_name agent @ py '':''
           in case py_get (agents p) (1 - loc_current_agent_index r) of
                Inl e \<Rightarrow> Inl e
              | Inr other \<Rightarrow>
                  Inr (agent,
                       \<lparr>req_url = ollama_url_input p, req_model = model agent, req_prompt = prompt,
                        req_temperature = temperature agent, req_top_k = top_k agent,
                        req_stop = [agent_name other @ py '':'']\<rparr>)))"

text \<open>
  Lines 300 to 341. \<open>response\<close> is what \<open>generate_output\<close> returned: \<open>None\<close>, or the lines
  of the stream of a Response, which is true in \<open>if response:\<close> since it has passed
  \<open>raise_for_status\<close>. The value is \<open>full_response\<close> with the frame.
\<close>

definition turn_response :: "agent \<Rightarrow> line list option \<Rightarrow> run \<Rightarrow> (pystr \<times> run) result" where
  "turn_response agent response r =
     (case response of
        Some lines \<Rightarrow>
          (let full_response = [];
               role = (if loc_current_agent_index r = 0 then py ''user'' else py ''assistant'');
               r = r\<lparr>st := (st r)\<lparr>chat_history := chat_history (st r) @
                        [\<lparr>role = role, chat_content = agent_name agent @ py '': ''\<rparr>]\<rparr>\<rparr>;
               r = r\<lparr>st := (st r)\<lparr>conversation := conversation (st r) @
                        [\<lparr>name = agent_name agent, content = []\<rparr>]\<rparr>\<rparr>;
               r = r\<lparr>loc_message_count := loc_message_count r + 1\<rparr>
           in case consume agent lines full_response r of
                Inl x \<Rightarrow> Inl x
              | Inr (full_response, r) \<Rightarrow> Inr (strip full_response, r))
      | None \<Rightarrow>
          (let full_response = py ''Error generating response.''
           in case set_last (\<lambda>m. m\<lparr>chat_content := agent_name agent @ py '': '' @ full_response\<rparr>)
                     (chat_history (st r)) of
                Inl e \<Rightarrow> Inl (e, r)
              | Inr ch \<Rightarrow>
                  (let r = r\<lparr>st := (st r)\<lparr>chat_history := ch\<rparr>\<rparr>
                   in case set_last (\<lambda>m. m\<lparr>content := full_response\<rparr>) (conversation (st r)) of
                        Inl e \<Rightarrow> Inl (e, r)
                      | Inr cv \<Rightarrow>
                          (let r = r\<lparr>st := (st r)\<lparr>conversation := cv\<rparr>\<rparr>;
                               r = r\<lparr>status_text := agent_name agent @ py '' encountered an error.''\<rparr>
                           in Inr (full_response, yield_ui (progress r) r)))))"

text \<open>How an iteration of the \<open>while\<close> loop ends.\<close>

datatype flow = Break | Next

text \<open>The text of the status after a stop: U+1F6D1 and \<open>" Debate stopped."\<close>.\<close>

definition stopped_text :: pystr where
  "stopped_text = 128721 # py '' Debate stopped.''"

text \<open>Lines 343 to 362, which do not read \<open>full_response\<close>.\<close>

definition turn_end :: "agent \<Rightarrow> run \<Rightarrow> flow \<times> run" where
  "turn_end agent r =
     (if \<not> running (st r) then
        (let r = r\<lparr>status_text := stopped_text\<rparr>;
             r = r\<lparr>st := (st r)\<lparr>current_agent_index := Some (loc_current_agent_index r)\<rparr>\<rparr>;
             r = r\<lparr>st := (st r)\<lparr>message_count := loc_message_count r\<rparr>\<rparr>
         in (Break, yield_ui (halted r) r))
      else
        (let r = r\<lparr>status_text := agent_name agent @ py '' finished responding.''\<rparr>;
             r = yield_ui (progress r) r;
             r = r\<lparr>loc_current_agent_index := 1 - loc_current_agent_index r\<rparr>;
             r = r\<lparr>st := (st r)\<lparr>current_agent_index := Some (loc_current_agent_index r)\<rparr>\<rparr>;
             r = r\<lparr>st := (st r)\<lparr>message_count := loc_message_count r\<rparr>\<rparr>
         in (Next, r\<lparr>completed := completed r @ [st r]\<rparr>)))"

text \<open>The body of the \<open>while\<close> loop from line 300 on.\<close>

definition turn :: "agent \<Rightarrow> line list option \<Rightarrow> run \<Rightarrow> (flow \<times> run) result" where
  "turn agent response r =
     (case turn_response agent response r of
        Inl x \<Rightarrow> Inl x
      | Inr (full_response, r) \<Rightarrow> Inr (turn_end agent r))"

section \<open>The loop and \<open>start_debate\<close>\<close>

text \<open>
  How a run of the generator ends: it returns, it is left by an exception, or it waits at
  \<open>generate_output\<close> for an answer that the given answers do not hold.
\<close>

datatype outcome = Returned run | Raised error run | Waiting run

text \<open>\<open>limit_text\<close> is the status of line 365.\<close>

definition limit_text :: pystr where
  "limit_text = py ''Debate ended after reaching message limit.''"

text \<open>
  Lines 364 to 373. After the last \<open>yield\<close> the generator only returns, so that tuple is
  recorded and nothing more.
\<close>

definition after_loop :: "run \<Rightarrow> run" where
  "after_loop r =
     (let r = (if loc_message_count r \<ge> 1000 then
                 (let r = r\<lparr>status_text := limit_text\<rparr>;
                      r = r\<lparr>st := (st r)\<lparr>running := False\<rparr>\<rparr>
                  in yield_ui (halted r) r)
               else r);
          r = r\<lparr>st := (st r)\<lparr>running := False\<rparr>\<rparr>;
          r = r\<lparr>st := (st r)\<lparr>current_agent_index := Some (loc_current_agent_index r)\<rparr>\<rparr>;
          r = r\<lparr>st := (st r)\<lparr>message_count := loc_message_count r\<rparr>\<rparr>
      in r\<lparr>out := out r @ [halted r]\<rparr>)"

text \<open>
  The \<open>while\<close> loop of line 268 with what follows it. \<open>responses\<close> holds what the coming
  calls of \<open>generate_output\<close> return, one element for each call.
\<close>

fun debate_loop :: "params \<Rightarrow> line list option list \<Rightarrow> run \<Rightarrow> outcome" where
  "debate_loop p responses r =
     (if loc_message_count r < 1000 \<and> running (st r) then
        (case turn_request p r of
           Inl e \<Rightarrow> Raised e r
         | Inr (agent, req) \<Rightarrow>
             (let r = r\<lparr>calls := calls r @ [req]\<rparr>
              in case responses of
                   [] \<Rightarrow> Waiting r
                 | response # rest \<Rightarrow>
                     (case turn agent response r of
                        Inl (e, r) \<Rightarrow> Raised e r
                      | Inr (Break, r) \<Rightarrow> Returned (after_loop r)
                      | Inr (Next, r) \<Rightarrow> debate_loop p rest r)))
      else Returned (after_loop r))"

text \<open>
  What \<open>start_debate\<close> gets from outside: the answer of \<open>check_ollama_connection\<close>, the draw
  \<open>random.randint(0, 1)\<close> (\<open>True\<close> for 1), the answers of \<open>generate_output\<close>, and the clicks
  on Stop.
\<close>

record world =
  connection :: bool
  randint :: bool
  generated :: "line list option list"
  stop_clicks :: "bool list"

definition started_text :: pystr where
  "started_text = 128640 # py '' Debate started.''"

definition cannot_connect_text :: pystr where
  "cannot_connect_text =
     py ''Cannot connect to Ollama server. Please check the URL and ensure the server is running.''"

text \<open>
  Lines 220 to 373. The frame is set up at once; the two early returns leave before the
  local variables are assigned, and there \<open>loc_message_count\<close>,
  \<open>loc_current_agent_index\<close> and \<open>status_text\<close> have no meaning.
\<close>

definition start_debate :: "params \<Rightarrow> world \<Rightarrow> debate_state \<Rightarrow> outcome" where
  "start_debate p w debate_state =
     (let r = \<lparr>st = debate_state, loc_message_count = message_count debate_state,
               loc_current_agent_index = 0, status_text = [], out = [], calls = [],
               clicks = stop_clicks w, completed = []\<rparr>
      in if running debate_state then
           Returned (r\<lparr>out := [\<lparr>chat = None, status = None, start_button = False, stop_button = True\<rparr>]\<rparr>)
         else if \<not> connection w then
           Returned (r\<lparr>out := [\<lparr>chat = Some (chat_history debate_state),
                                  status = Some cannot_connect_text,
                                  start_button = True, stop_button = False\<rparr>]\<rparr>)
         else
           (let r = (case current_agent_index debate_state of
                       None \<Rightarrow> r\<lparr>loc_current_agent_index := of_bool (randint w),
                                 st := (st r)\<lparr>current_agent_index := Some (of_bool (randint w))\<rparr>\<rparr>
                     | Some i \<Rightarrow> r\<lparr>loc_current_agent_index := i\<rparr>);
                r = r\<lparr>status_text := started_text\<rparr>;
                r = r\<lparr>st := (st r)\<lparr>running := True\<rparr>\<rparr>;
                r = yield_ui (progress r) r
            in debate_loop p (generated w) r))"

section \<open>Sample inputs\<close>

text \<open>The value that \<open>gr.State\<close> is created with (line 185).\<close>

definition initial_state :: debate_state where
  "initial_state =
     \<lparr>running = False, conversation = [], chat_history = [], message_count = 0,
      current_agent_index = None\<rparr>"

definition demo_params :: params where
  "demo_params =
     \<lparr>topic_text = py ''Climate change'', stage_rules_text = py ''Stay on topic.'',
      agent1_name_text = py ''Ann'', agent1_system_prompt_text = py ''You are Ann.'',
      agent1_model_name = py ''llama3'', agent1_temperature_value = 1, agent1_top_k_value = 40,
      agent1_memory_size_value = 2000,
      agent2_name_text = py ''Bob'', agent2_system_prompt_text = py ''You are Bob.'',
      agent2_model_name = py ''llama3'', agent2_temperature_value = 1, agent2_top_k_value = 40,
      agent2_memory_size_value = 2000,
      ollama_url_input = py ''http://localhost:11434''\<rparr>"

text \<open>A stream record \<open>{"response": s}\<close>, and the closing record \<open>{"done": true}\<close>.\<close>

definition say :: "string \<Rightarrow> line" where
  "say s = Parsed (JObj [(py ''response'', JStr (py s))])"

definition done_record :: line where
  "done_record = Parsed (JObj [(py ''done'', JOther)])"

text \<open>The frame that a run ends with, however it ends.\<close>

fun frame :: "outcome \<Rightarrow> run" where
  "frame (Returned r) = r"
| "frame (Raised e r) = r"
| "frame (Waiting r) = r"

text \<open>A frame at the head of the \<open>while\<close> loop, with a given value of the local \<open>message_count\<close>.\<close>

definition demo_frame :: "int \<Rightarrow> run" where
  "demo_frame n =
     \<lparr>st = \<lparr>running = True, conversation = [], chat_history = [], message_count = n,
             current_agent_index = Some 0\<rparr>,
      loc_message_count = n, loc_current_agent_index = 0, status_text = started_text,
      out = [], calls = [], clicks = [], completed = []\<rparr>"

text \<open>
  The frame inside Ann's first turn, when lines 304 to 309 have appended the empty entry and
  counted it, with the clicks still to come.
\<close>

definition demo_stream_frame :: "bool list \<Rightarrow> run" where
  "demo_stream_frame cs =
     \<lparr>st = \<lparr>running = True, conversation = [\<lparr>name = py ''Ann'', content = []\<rparr>],
             chat_history = [\<lparr>role = py ''user'', chat_content = py ''Ann: ''\<rparr>],
             message_count = 0, current_agent_index = Some 0\<rparr>,
      loc_message_count = 1, loc_current_agent_index = 0, status_text = started_text,
      out = [], calls = [], clicks = cs, completed = []\<rparr>"

section \<open>Vocabulary of the proofs\<close>

text \<open>
  The value that \<open>current_agent_index\<close> has once lines 255 to 260 have run: the one found in
  the dict, or the draw.
\<close>

definition initial_index :: "world \<Rightarrow> debate_state \<Rightarrow> int" where
  "initial_index w ds = (case current_agent_index ds of None \<Rightarrow> of_bool (randint w) | Some i \<Rightarrow> i)"

text \<open>What the loop over the stream leaves as it was.\<close>

definition same_schedule :: "run \<Rightarrow> run \<Rightarrow> bool" where
  "same_schedule r r' \<longleftrightarrow>
     loc_current_agent_index r' = loc_current_agent_index r \<and>
     loc_message_count r' = loc_message_count r \<and>
     completed r' = completed r \<and> calls r' = calls r \<and>
     message_count (st r') = message_count (st r) \<and>
     current_agent_index (st r') = current_agent_index (st r) \<and>
     length (conversation (st r')) = length (conversation (st r)) \<and>
     length (chat_history (st r')) = length (chat_history (st r))"

text \<open>
  The invariant of the \<open>while\<close> loop for a run that started with the index \<open>i0\<close>: the local
  index and the one in the dict agree with the number of iterations that reached line 362,
  and so does the dict recorded at each of them.
\<close>

definition alternating :: "int \<Rightarrow> run \<Rightarrow> bool" where
  "alternating i0 r \<longleftrightarrow>
     loc_current_agent_index r = i0 XOR (int (length (completed r)) mod 2) \<and>
     current_agent_index (st r) = Some (loc_current_agent_index r) \<and>
     (\<forall>k<length (completed r).
        current_agent_index (completed r ! k) = Some (i0 XOR (int (Suc k) mod 2)))"

section \<open>Evaluation\<close>

declare debate_loop.simps [simp del]

lemma py_simps: "py [] = []" "py (c # cs) = of_char c # py cs"
  by (simp_all add: py_def)

lemmas run_defs = start_debate_def yield_ui_def progress_def halted_def turn_request_def py_get_def
  agents_def turn_def turn_response_def turn_end_def set_last_def after_loop_def strip_or_def
  strip_def isspace_def memory_window_def msg_text_def fragment_def stop_debate_def
  limit_text_def started_text_def stopped_text_def cannot_connect_text_def debate_loop.simps
  Let_def

lemmas demo_defs = demo_params_def initial_state_def say_def done_record_def demo_frame_def
  demo_stream_frame_def py_simps

section \<open>The memory window\<close>

lemma text_length_Nil [simp]: "text_length [] = 0"
  by (simp add: text_length_def)

lemma text_length_append [simp]: "text_length (xs @ ys) = text_length xs + text_length ys"
  by (simp add: text_length_def)

lemma text_length_Cons [simp]: "text_length (x # xs) = int (length (msg_text x)) + text_length xs"
  by (simp add: text_length_def)

lemma text_length_rev [simp]: "text_length (rev xs) = text_length xs"
  by (induction xs) simp_all

lemma text_length_nonneg: "0 \<le> text_length xs"
  by (induction xs) simp_all

lemma length_concat_msg_text: "int (length (concat (map msg_text xs))) = text_length xs"
  by (induction xs) simp_all

lemma msg_text_length: "3 \<le> length (msg_text e)"
  by (simp add: msg_text_def py_def)

lemma text_length_take_mono: "j \<le> k \<Longrightarrow> text_length (take j xs) \<le> text_length (take k xs)"
proof -
  assume "j \<le> k"
  then have "take k xs = take j xs @ take (k - j) (drop j xs)"
    by (metis le_add_diff_inverse take_add)
  then show ?thesis
    using text_length_nonneg [of "take (k - j) (drop j xs)"] by simp
qed

text \<open>
  The loop takes the longest prefix of the reversed history whose running length stays
  within the budget, and puts it in front of the text in the order of the history.
\<close>

lemma memory_loop_prefix:
  "\<exists>k\<le>length ms.
     memory_loop b ms acc n = concat (map msg_text (rev (take k ms))) @ acc \<and>
     (0 < k \<longrightarrow> n + text_length (take k ms) \<le> b) \<and>
     (k < length ms \<longrightarrow> b < n + text_length (take (Suc k) ms))"
proof (induction ms arbitrary: acc n)
  case Nil
  show ?case by simp
next
  case (Cons m ms)
  show ?case
  proof (cases "b < n + int (length (msg_text m))")
    case True
    then show ?thesis by (intro exI [of _ 0]) simp
  next
    case False
    from Cons.IH [of "msg_text m @ acc" "n + int (length (msg_text m))"]
    obtain k where k: "k \<le> length ms"
      "memory_loop b ms (msg_text m @ acc) (n + int (length (msg_text m))) =
         concat (map msg_text (rev (take k ms))) @ msg_text m @ acc"
      "0 < k \<longrightarrow> n + int (length (msg_text m)) + text_length (take k ms) \<le> b"
      "k < length ms \<longrightarrow> b < n + int (length (msg_text m)) + text_length (take (Suc k) ms)"
      by blast
    show ?thesis
    proof (intro exI [of _ "Suc k"] conjI)
      show "Suc k \<le> length (m # ms)" using k(1) by simp
      show "memory_loop b (m # ms) acc n = concat (map msg_text (rev (take (Suc k) (m # ms)))) @ acc"
        using False k(2) by simp
      show "0 < Suc k \<longrightarrow> n + text_length (take (Suc k) (m # ms)) \<le> b"
        using False k(3) by (cases k) auto
      show "Suc k < length (m # ms) \<longrightarrow> b < n + text_length (take (Suc (Suc k)) (m # ms))"
        using k(4) by auto
    qed
  qed
qed

lemma newest_rev: "rev (take k (rev xs)) = newest k xs"
  by (simp add: newest_def take_rev)

lemma text_length_newest: "text_length (take k (rev xs)) = text_length (newest k xs)"
  by (metis newest_rev text_length_rev)

lemma newest_mono: "j \<le> k \<Longrightarrow> text_length (newest j h) \<le> text_length (newest k h)"
  using text_length_take_mono [of j k "rev h"] by (simp add: text_length_newest)

lemma newest_one: "h \<noteq> [] \<Longrightarrow> newest (Suc 0) h = [last h]"
  by (induction h rule: rev_induct) (simp_all add: newest_def)

lemma memory_window_newest:
  "\<exists>k\<le>length h.
     memory_window h b = concat (map msg_text (newest k h)) \<and>
     (0 < k \<longrightarrow> text_length (newest k h) \<le> b) \<and>
     (k < length h \<longrightarrow> b < text_length (newest (Suc k) h))"
  using memory_loop_prefix [of "rev h" b "[]" 0]
  by (simp add: memory_window_def newest_rev text_length_newest)

lemma memory_window_length: "0 \<le> b \<Longrightarrow> int (length (memory_window h b)) \<le> b"
proof -
  assume b: "0 \<le> b"
  obtain k where k: "memory_window h b = concat (map msg_text (newest k h))"
    "0 < k \<longrightarrow> text_length (newest k h) \<le> b"
    using memory_window_newest [of h b] by blast
  show ?thesis
  proof (cases k)
    case 0
    then show ?thesis using k(1) b by (simp add: newest_def)
  next
    case (Suc j)
    then show ?thesis using k by (simp add: length_concat_msg_text)
  qed
qed

lemma memory_window_newest_too_long:
  assumes "h \<noteq> []" and "b < int (length (msg_text (last h)))"
  shows "memory_window h b = []"
proof -
  obtain k where k: "memory_window h b = concat (map msg_text (newest k h))"
    "0 < k \<longrightarrow> text_length (newest k h) \<le> b"
    using memory_window_newest [of h b] by blast
  have "k = 0"
  proof (rule ccontr)
    assume "k \<noteq> 0"
    then have "text_length (newest (Suc 0) h) \<le> text_length (newest k h)"
      by (intro newest_mono) simp
    with \<open>k \<noteq> 0\<close> k(2) assms show False by (simp add: newest_one)
  qed
  then show ?thesis using k(1) by (simp add: newest_def)
qed

lemma memory_window_no_budget: "b \<le> 0 \<Longrightarrow> memory_window h b = []"
proof (cases "h = []")
  case True
  then show ?thesis by (simp add: memory_window_def)
next
  case False
  assume "b \<le> 0"
  then have "b < int (length (msg_text (last h)))"
    using msg_text_length [of "last h"] by linarith
  with False show ?thesis by (rule memory_window_newest_too_long)
qed

text \<open>
  Claim C3, as the code has it. For every history \<open>h\<close> and every integer budget \<open>b\<close>, the
  memory window is the concatenation, in the order of the history, of the whole formatted
  texts \<open>"<speaker>: <content>\n"\<close> of the newest \<open>k\<close> entries, where walking from the newest
  entry every one of these \<open>k\<close> keeps the cumulative length within \<open>b\<close> and the next older
  entry, if there is one, would bring it strictly past \<open>b\<close>. When the budget is not negative
  the length of the result is at most the budget. When the newest entry alone is longer
  than the budget, and whenever the budget is at most 0, the result is the empty string.
\<close>

theorem memory_window_budget:
  "(\<exists>k\<le>length h.
      memory_window h b = concat (map msg_text (newest k h)) \<and>
      (\<forall>j. 0 < j \<and> j \<le> k \<longrightarrow> text_length (newest j h) \<le> b) \<and>
      (k < length h \<longrightarrow> b < text_length (newest (Suc k) h))) \<and>
   (0 \<le> b \<longrightarrow> int (length (memory_window h b)) \<le> b) \<and>
   (h \<noteq> [] \<and> b < int (length (msg_text (last h))) \<longrightarrow> memory_window h b = []) \<and>
   (b \<le> 0 \<longrightarrow> memory_window h b = [])"
proof (intro conjI impI)
  obtain k where k: "k \<le> length h" "memory_window h b = concat (map msg_text (newest k h))"
    "0 < k \<longrightarrow> text_length (newest k h) \<le> b"
    "k < length h \<longrightarrow> b < text_length (newest (Suc k) h)"
    using memory_window_newest [of h b] by blast
  have "text_length (newest j h) \<le> b" if "0 < j \<and> j \<le> k" for j
    using that k(3) newest_mono [of j k h] by auto
  with k show "\<exists>k\<le>length h.
      memory_window h b = concat (map msg_text (newest k h)) \<and>
      (\<forall>j. 0 < j \<and> j \<le> k \<longrightarrow> text_length (newest j h) \<le> b) \<and>
      (k < length h \<longrightarrow> b < text_length (newest (Suc k) h))"
    by blast
next
  assume "0 \<le> b"
  then show "int (length (memory_window h b)) \<le> b" by (rule memory_window_length)
next
  assume "h \<noteq> [] \<and> b < int (length (msg_text (last h)))"
  then show "memory_window h b = []" by (simp add: memory_window_newest_too_long)
next
  assume "b \<le> 0"
  then show "memory_window h b = []" by (rule memory_window_no_budget)
qed

text \<open>
  The example of the specification: with budget 50 the newest entry (21 characters with
  its newline) is kept and the older one (40 characters) is left out; with budget 5 and
  with budget 0 nothing is kept.
\<close>

theorem memory_window_budget_witness:
  "(0::int) \<le> 50 \<and>
   memory_window [\<lparr>name = py ''B'', content = py ''012345678901234567890123456789012345''\<rparr>,
                  \<lparr>name = py ''A'', content = py ''hello hello hello''\<rparr>] 50
     = py ''A: hello hello hello'' @ [10] \<and>
   int (length (memory_window [\<lparr>name = py ''B'', content = py ''012345678901234567890123456789012345''\<rparr>,
                  \<lparr>name = py ''A'', content = py ''hello hello hello''\<rparr>] 50)) \<le> 50 \<and>
   [\<lparr>name = py ''A'', content = py ''hello hello hello''\<rparr>] \<noteq> [] \<and>
   5 < int (length (msg_text (last [\<lparr>name = py ''A'', content = py ''hello hello hello''\<rparr>]))) \<and>
   memory_window [\<lparr>name = py ''A'', content = py ''hello hello hello''\<rparr>] 5 = [] \<and>
   (0::int) \<le> 0 \<and>
   memory_window [\<lparr>name = py ''A'', content = py ''hello hello hello''\<rparr>] 0 = []"
  using memory_window_budget
      [of "[\<lparr>name = py ''B'', content = py ''012345678901234567890123456789012345''\<rparr>,
            \<lparr>name = py ''A'', content = py ''hello hello hello''\<rparr>]" 50]
    memory_window_budget [of "[\<lparr>name = py ''A'', content = py ''hello hello hello''\<rparr>]" 5]
    memory_window_budget [of "[\<lparr>name = py ''A'', content = py ''hello hello hello''\<rparr>]" 0]
  by (simp add: memory_window_def msg_text_def py_simps)

text \<open>
  The length bound of claim C3 as it is written, for every integer budget, fails below 0:
  the window of the empty history is empty, and 0 is more than the budget -1.
\<close>

theorem memory_window_negative_budget:
  "\<not> int (length (memory_window [] (- 1))) \<le> - 1"
  by (simp add: memory_window_def)

section \<open>Reset\<close>

text \<open>
  Claim C9. Whatever the state before, after \<open>reset_debate\<close> the conversation and the chat
  history are empty, \<open>message_count\<close> is 0, \<open>current_agent_index\<close> is unset and \<open>running\<close>
  is false.
\<close>

theorem reset_debate_clears:
  "conversation (reset_debate ds) = [] \<and> chat_history (reset_debate ds) = [] \<and>
   message_count (reset_debate ds) = 0 \<and> current_agent_index (reset_debate ds) = None \<and>
   running (reset_debate ds) = False"
  by (simp add: reset_debate_def)

section \<open>The two early returns of \<open>start_debate\<close>\<close>

text \<open>
  Claim C8. When \<open>running\<close> is already true, \<open>start_debate\<close> returns at once: the dict is
  the one it was given, field for field, no generation call is made, no turn is run, and the
  only tuple yielded leaves the chat and the status as they are.
\<close>

theorem start_debate_running_noop:
  "running ds \<Longrightarrow>
   \<exists>r. start_debate p w ds = Returned r \<and> st r = ds \<and> calls r = [] \<and> completed r = [] \<and>
       out r = [\<lparr>chat = None, status = None, start_button = False, stop_button = True\<rparr>]"
  by (simp add: start_debate_def)

theorem start_debate_running_noop_witness:
  "running (initial_state\<lparr>running := True\<rparr>) \<and>
   (\<exists>r. start_debate demo_params
          \<lparr>connection = True, randint = False, generated = [Some [say ''Hi'']], stop_clicks = []\<rparr>
          (initial_state\<lparr>running := True\<rparr>) = Returned r \<and>
        st r = initial_state\<lparr>running := True\<rparr> \<and> calls r = [] \<and> completed r = [] \<and>
        out r = [\<lparr>chat = None, status = None, start_button = False, stop_button = True\<rparr>])"
  using start_debate_running_noop [of "initial_state\<lparr>running := True\<rparr>" demo_params
      "\<lparr>connection = True, randint = False, generated = [Some [say ''Hi'']], stop_clicks = []\<rparr>"]
  by simp

text \<open>
  Claim C5. When \<open>check_ollama_connection\<close> answers that the server cannot be reached,
  \<open>start_debate\<close> returns before any turn: the dict is the one it was given (conversation,
  chat history, \<open>message_count\<close> and \<open>current_agent_index\<close> unchanged, \<open>running\<close> still false),
  no generation call is made, and the one tuple yielded carries the status message.
\<close>

theorem start_debate_unreachable:
  "\<not> running ds \<Longrightarrow> \<not> connection w \<Longrightarrow>
   \<exists>r. start_debate p w ds = Returned r \<and> st r = ds \<and> \<not> running (st r) \<and>
       calls r = [] \<and> completed r = [] \<and>
       out r = [\<lparr>chat = Some (chat_history ds), status = Some cannot_connect_text,
                 start_button = True, stop_button = False\<rparr>]"
  by (simp add: start_debate_def)

theorem start_debate_unreachable_witness:
  "\<not> running initial_state \<and>
   \<not> connection \<lparr>connection = False, randint = True, generated = [Some [say ''Hi'']], stop_clicks = []\<rparr> \<and>
   (\<exists>r. start_debate demo_params
          \<lparr>connection = False, randint = True, generated = [Some [say ''Hi'']], stop_clicks = []\<rparr>
          initial_state = Returned r \<and>
        st r = initial_state \<and> \<not> running (st r) \<and> calls r = [] \<and> completed r = [] \<and>
        out r = [\<lparr>chat = Some (chat_history initial_state), status = Some cannot_connect_text,
                  start_button = True, stop_button = False\<rparr>])"
  using start_debate_unreachable [of initial_state
      "\<lparr>connection = False, randint = True, generated = [Some [say ''Hi'']], stop_clicks = []\<rparr>"
      demo_params]
  by (simp add: initial_state_def)

section \<open>What a \<open>yield\<close> and the loop over the stream leave alone\<close>

lemma yield_ui_fields [simp]:
  "loc_current_agent_index (yield_ui u r) = loc_current_agent_index r"
  "loc_message_count (yield_ui u r) = loc_message_count r"
  "completed (yield_ui u r) = completed r"
  "calls (yield_ui u r) = calls r"
  "status_text (yield_ui u r) = status_text r"
  "out (yield_ui u r) = out r @ [u]"
  "conversation (st (yield_ui u r)) = conversation (st r)"
  "chat_history (st (yield_ui u r)) = chat_history (st r)"
  "message_count (st (yield_ui u r)) = message_count (st r)"
  "current_agent_index (st (yield_ui u r)) = current_agent_index (st r)"
  by (simp_all add: yield_ui_def stop_debate_def split: list.splits)

lemma set_last_length: "set_last f xs = Inr ys \<Longrightarrow> length ys = length xs"
  by (auto simp: set_last_def split: if_splits)

lemma same_schedule_refl [simp]: "same_schedule r r"
  by (simp add: same_schedule_def)

lemma same_schedule_trans: "same_schedule a b \<Longrightarrow> same_schedule b c \<Longrightarrow> same_schedule a c"
  by (simp add: same_schedule_def)

lemma consume_same_schedule:
  "(consume agent ls full r = Inr (full', r') \<longrightarrow> same_schedule r r') \<and>
   (consume agent ls full r = Inl (e, r') \<longrightarrow> same_schedule r r')"
proof (induction agent ls full r rule: consume.induct)
  case (1 agent full_response r)
  show ?case by auto
next
  case (2 agent l ls full_response r)
  show ?case
  proof (cases "running (st r)")
    case False
    then show ?thesis by auto
  next
    case run: True
    show ?thesis
    proof (cases l)
      case Blank
      with run 2(1) show ?thesis by simp
    next
      case (Malformed x)
      with run show ?thesis by auto
    next
      case (Parsed j)
      show ?thesis
      proof (cases "fragment j")
        case (Inl x)
        with run Parsed show ?thesis by auto
      next
        case (Inr fo)
        show ?thesis
        proof (cases fo)
          case None
          with run Parsed Inr 2(2) show ?thesis by simp
        next
          case (Some pr)
          show ?thesis
          proof (cases "set_last (\<lambda>m. m\<lparr>chat_content := agent_name agent @ py '': '' @ full_response @ pr\<rparr>) (chat_history (st r))")
            case a: (Inl x)
            with run Parsed Inr Some show ?thesis by (auto simp: Let_def)
          next
            case ch: (Inr ch)
            show ?thesis
            proof (cases "set_last (\<lambda>m. m\<lparr>content := full_response @ pr\<rparr>) (conversation (st r))")
              case a: (Inl x)
              with run Parsed Inr Some ch show ?thesis
                by (auto simp: Let_def same_schedule_def set_last_length)
            next
              case cv: (Inr cv)
              let ?r1 = "r\<lparr>st := (st r)\<lparr>chat_history := ch\<rparr>\<rparr>"
              let ?r2 = "?r1\<lparr>st := (st ?r1)\<lparr>conversation := cv\<rparr>\<rparr>"
              let ?r3 = "?r2\<lparr>status_text := agent_name agent @ py '' is typing...''\<rparr>"
              have step: "same_schedule r (yield_ui (progress ?r3) ?r3)"
                using ch cv by (simp add: same_schedule_def set_last_length)
              have eq: "consume agent (l # ls) full_response r =
                        consume agent ls (full_response @ pr) (yield_ui (progress ?r3) ?r3)"
                using run Parsed Inr Some ch cv by (simp add: Let_def)
              have IH: "(consume agent ls (full_response @ pr) (yield_ui (progress ?r3) ?r3) = Inr (full', r') \<longrightarrow>
                           same_schedule (yield_ui (progress ?r3) ?r3) r') \<and>
                        (consume agent ls (full_response @ pr) (yield_ui (progress ?r3) ?r3) = Inl (e, r') \<longrightarrow>
                           same_schedule (yield_ui (progress ?r3) ?r3) r')"
                using 2(3) [OF _ Parsed Inr Some refl ch refl _ refl refl] cv run by simp
              show ?thesis
                unfolding eq using IH step by (blast intro: same_schedule_trans)
            qed
          qed
        qed
      qed
    qed
  qed
qed


section \<open>Unfolding the \<open>while\<close> loop\<close>

lemma debate_loop_exit:
  "\<not> (loc_message_count r < 1000 \<and> running (st r)) \<Longrightarrow>
   debate_loop p responses r = Returned (after_loop r)"
  by (subst debate_loop.simps) (rule if_not_P)

lemma debate_loop_raise:
  "loc_message_count r < 1000 \<Longrightarrow> running (st r) \<Longrightarrow> turn_request p r = Inl e \<Longrightarrow>
   debate_loop p responses r = Raised e r"
  by (subst debate_loop.simps) simp

lemma debate_loop_wait:
  "loc_message_count r < 1000 \<Longrightarrow> running (st r) \<Longrightarrow> turn_request p r = Inr (agent, req) \<Longrightarrow>
   debate_loop p [] r = Waiting (r\<lparr>calls := calls r @ [req]\<rparr>)"
  by (subst debate_loop.simps) simp

lemma debate_loop_turn:
  "loc_message_count r < 1000 \<Longrightarrow> running (st r) \<Longrightarrow> turn_request p r = Inr (agent, req) \<Longrightarrow>
   debate_loop p (response # rest) r =
     (case turn agent response (r\<lparr>calls := calls r @ [req]\<rparr>) of
        Inl (e, r) \<Rightarrow> Raised e r
      | Inr (Break, r) \<Rightarrow> Returned (after_loop r)
      | Inr (Next, r) \<Rightarrow> debate_loop p rest r)"
  by (subst debate_loop.simps) simp


section \<open>Records of the stream\<close>




section \<open>A generation call that fails\<close>

text \<open>
  The branch of lines 331 to 341 appends nothing and does not count: with an empty chat
  history it raises, and otherwise the turn ends with the same number of entries and the
  same \<open>message_count\<close>.
\<close>

lemma turn_response_None_empty:
  "chat_history (st r) = [] \<Longrightarrow> turn_response agent None r = Inl (IndexError, r)"
  by (simp add: turn_response_def set_last_def)

lemma turn_None_count:
  assumes "turn agent None r = Inr (fl, r')"
  shows "loc_message_count r' = loc_message_count r \<and>
         length (conversation (st r')) = length (conversation (st r)) \<and>
         length (chat_history (st r')) = length (chat_history (st r))"
  using assms
  by (auto simp: turn_def turn_response_def turn_end_def Let_def set_last_length
      split: sum.splits if_splits)

text \<open>
  Claim C10 at the input it names: a new session, the server reachable, and the first
  generation call failing. Line 334 reads \<open>chat_history[-1]\<close> of the empty list, and the
  IndexError leaves the generator with \<open>running\<close> true and the transcript empty.
\<close>

theorem first_call_fails_on_empty_transcript:
  "(case start_debate demo_params
           \<lparr>connection = True, randint = False, generated = [None], stop_clicks = []\<rparr>
           initial_state of
      Raised e r \<Rightarrow> e = IndexError \<and> conversation (st r) = [] \<and> chat_history (st r) = [] \<and>
                    running (st r)
    | _ \<Rightarrow> False)"
  by (simp add: run_defs demo_defs)

text \<open>
  Claim C1 at a failing input: Ann's turn succeeds with \<open>Hi\<close>, then Bob's generation call
  fails. The code gives Bob's turn no entry: the sentinel replaces the content of Ann's
  entry in the conversation, the chat shows it under Bob's name in Ann's bubble, and
  \<open>message_count\<close> is still 1 after the two turns, while the index is toggled both times.
\<close>

theorem failed_call_overwrites_previous_entry:
  "(case start_debate demo_params
           \<lparr>connection = True, randint = False, generated = [Some [say ''Hi'', done_record], None],
            stop_clicks = []\<rparr>
           initial_state of
      Waiting r \<Rightarrow>
        conversation (st r) = [\<lparr>name = py ''Ann'', content = py ''Error generating response.''\<rparr>] \<and>
        chat_history (st r) =
          [\<lparr>role = py ''user'', chat_content = py ''Bob: Error generating response.''\<rparr>] \<and>
        message_count (st r) = 1 \<and> loc_message_count r = 1 \<and>
        map message_count (completed r) = [1, 1] \<and>
        map current_agent_index (completed r) = [Some 1, Some 0]
    | _ \<Rightarrow> False)"
  by (simp add: run_defs demo_defs)

section \<open>The content that a turn stores\<close>

text \<open>
  Claim C6 at a failing input: the fragments \<open>" Hello"\<close> and \<open>" world "\<close>, then the end of
  the stream, and a click on Stop while the turn's last tuple is shown. Line 330 strips the
  local \<open>full_response\<close> and nothing reads it afterwards: the conversation and the chat
  keep the concatenation with its leading and trailing blanks, where the stripped text
  is \<open>"Hello world"\<close>.
\<close>

theorem stored_content_not_stripped:
  "(case start_debate demo_params
           \<lparr>connection = True, randint = False,
            generated = [Some [say '' Hello'', say '' world '', done_record]],
            stop_clicks = [False, False, False, True]\<rparr>
           initial_state of
      Returned r \<Rightarrow>
        conversation (st r) = [\<lparr>name = py ''Ann'', content = py '' Hello world ''\<rparr>] \<and>
        chat_history (st r) = [\<lparr>role = py ''user'', chat_content = py ''Ann:  Hello world ''\<rparr>] \<and>
        strip (py '' Hello world '') = py ''Hello world'' \<and>
        message_count (st r) = 1 \<and> length (completed r) = 1
    | _ \<Rightarrow> False)"
  by (simp add: run_defs demo_defs)

section \<open>Alternation\<close>

lemma toggle_xor:
  "i0 \<in> {0, 1} \<Longrightarrow> 1 - (i0 XOR (int n mod 2)) = i0 XOR (int (Suc n) mod 2)"
proof -
  assume i0: "i0 \<in> {0, 1}"
  have "int n mod 2 = 0 \<and> int (Suc n) mod 2 = 1 \<or> int n mod 2 = 1 \<and> int (Suc n) mod 2 = 0"
    by presburger
  with i0 show ?thesis by auto
qed

lemma same_schedule_alternating:
  "same_schedule r r' \<Longrightarrow> alternating i0 r \<Longrightarrow> alternating i0 r'"
  by (simp add: same_schedule_def alternating_def)

lemma turn_response_alternating:
  assumes "alternating i0 r"
    and "turn_response agent response r = Inr (x, r') \<or> turn_response agent response r = Inl (e, r')"
  shows "alternating i0 r'"
proof (cases response)
  case None
  with assms show ?thesis
    by (auto simp: turn_response_def Let_def alternating_def split: sum.splits)
next
  case (Some lines)
  define role where "role = (if loc_current_agent_index r = 0 then py ''user'' else py ''assistant'')"
  define r1 where "r1 = r\<lparr>st := (st r)\<lparr>chat_history := chat_history (st r) @
               [\<lparr>role = role, chat_content = agent_name agent @ py '': ''\<rparr>],
               conversation := conversation (st r) @ [\<lparr>name = agent_name agent, content = []\<rparr>]\<rparr>,
             loc_message_count := loc_message_count r + 1\<rparr>"
  have a: "alternating i0 r1"
    using assms(1) by (simp add: alternating_def r1_def)
  have eq: "turn_response agent response r =
        (case consume agent lines [] r1 of Inl x \<Rightarrow> Inl x | Inr (f, r) \<Rightarrow> Inr (strip f, r))"
    using Some by (simp add: turn_response_def Let_def r1_def role_def)
  from assms(2) have "(\<exists>f. consume agent lines [] r1 = Inr (f, r')) \<or> consume agent lines [] r1 = Inl (e, r')"
    unfolding eq by (auto split: sum.splits)
  then have "same_schedule r1 r'"
    using consume_same_schedule [of agent lines "[]" r1 _ r' e] by blast
  with a show ?thesis by (rule same_schedule_alternating [rotated])
qed

lemma turn_end_alternating:
  assumes "alternating i0 r" and "i0 \<in> {0, 1}" and "turn_end agent r = (fl, r')"
  shows "alternating i0 r'"
proof (cases "running (st r)")
  case False
  with assms show ?thesis
    by (auto simp: turn_end_def Let_def alternating_def)
next
  case True
  with assms(3) have r': "loc_current_agent_index r' = 1 - loc_current_agent_index r"
    "completed r' = completed r @ [st r']"
    "current_agent_index (st r') = Some (1 - loc_current_agent_index r)"
    by (auto simp: turn_end_def Let_def)
  have "1 - loc_current_agent_index r = i0 XOR (int (Suc (length (completed r))) mod 2)"
    using assms(1,2) toggle_xor [of i0 "length (completed r)"] by (simp add: alternating_def)
  with r' assms(1) show ?thesis
    by (auto simp: alternating_def nth_append less_Suc_eq)
qed

lemma after_loop_alternating: "alternating i0 r \<Longrightarrow> alternating i0 (after_loop r)"
  by (simp add: after_loop_def Let_def alternating_def)

lemma debate_loop_alternating:
  "alternating i0 r \<Longrightarrow> i0 \<in> {0, 1} \<Longrightarrow> alternating i0 (frame (debate_loop p responses r))"
proof (induction responses arbitrary: r)
  case Nil
  show ?case
  proof (cases "loc_message_count r < 1000 \<and> running (st r)")
    case False
    then have "debate_loop p [] r = Returned (after_loop r)" by (rule debate_loop_exit)
    with Nil(1) show ?thesis by (simp add: after_loop_alternating)
  next
    case cond: True
    show ?thesis
    proof (cases "turn_request p r")
      case (Inl e)
      with cond Nil show ?thesis by (simp add: debate_loop_raise)
    next
      case (Inr ar)
      obtain agent req where "ar = (agent, req)" by (cases ar)
      with cond Inr have "debate_loop p [] r = Waiting (r\<lparr>calls := calls r @ [req]\<rparr>)"
        by (simp add: debate_loop_wait)
      with Nil(1) show ?thesis by (simp add: alternating_def)
    qed
  qed
next
  case (Cons response rest)
  show ?case
  proof (cases "loc_message_count r < 1000 \<and> running (st r)")
    case False
    then have "debate_loop p (response # rest) r = Returned (after_loop r)"
      by (rule debate_loop_exit)
    with Cons.prems(1) show ?thesis by (simp add: after_loop_alternating)
  next
    case cond: True
    show ?thesis
    proof (cases "turn_request p r")
      case (Inl e)
      with cond Cons.prems show ?thesis by (simp add: debate_loop_raise)
    next
      case (Inr ar)
      obtain agent req where ar: "ar = (agent, req)" by (cases ar)
      define r1 where "r1 = r\<lparr>calls := calls r @ [req]\<rparr>"
      have a1: "alternating i0 r1" using Cons.prems(1) by (simp add: alternating_def r1_def)
      have eq: "debate_loop p (response # rest) r =
                (case turn agent response r1 of
                   Inl (e, r) \<Rightarrow> Raised e r
                 | Inr (Break, r) \<Rightarrow> Returned (after_loop r)
                 | Inr (Next, r) \<Rightarrow> debate_loop p rest r)"
        using cond Inr ar by (simp add: debate_loop_turn r1_def)
      show ?thesis
      proof (cases "turn_response agent response r1")
        case (Inl er)
        obtain e r' where "er = (e, r')" by (cases er)
        with Inl a1 have "alternating i0 r'"
          using turn_response_alternating [of i0 r1 agent response _ r' e] by simp
        with Inl \<open>er = (e, r')\<close> show ?thesis by (simp add: eq turn_def)
      next
        case (Inr xr)
        obtain x r2 where xr: "xr = (x, r2)" by (cases xr)
        with Inr a1 have a2: "alternating i0 r2"
          using turn_response_alternating [of i0 r1 agent response x r2] by simp
        obtain fl r3 where te: "turn_end agent r2 = (fl, r3)" by (cases "turn_end agent r2")
        with a2 Cons.prems(2) have a3: "alternating i0 r3" by (rule turn_end_alternating)
        show ?thesis
        proof (cases fl)
          case Break
          with Inr xr te a3 show ?thesis by (simp add: eq turn_def after_loop_alternating)
        next
          case Next
          with Inr xr te have "debate_loop p (response # rest) r = debate_loop p rest r3"
            by (simp add: eq turn_def)
          with Cons.IH [OF a3 Cons.prems(2)] show ?thesis by simp
        qed
      qed
    qed
  qed
qed


lemma turn_response_keeps:
  assumes "turn_response agent response r = Inr (x, r1)"
  shows "loc_current_agent_index r1 = loc_current_agent_index r \<and> completed r1 = completed r"
proof (cases response)
  case None
  with assms show ?thesis
    by (auto simp: turn_response_def Let_def split: sum.splits)
next
  case (Some lines)
  define role where "role = (if loc_current_agent_index r = 0 then py ''user'' else py ''assistant'')"
  define r0 where "r0 = r\<lparr>st := (st r)\<lparr>chat_history := chat_history (st r) @
               [\<lparr>role = role, chat_content = agent_name agent @ py '': ''\<rparr>],
               conversation := conversation (st r) @ [\<lparr>name = agent_name agent, content = []\<rparr>]\<rparr>,
             loc_message_count := loc_message_count r + 1\<rparr>"
  have eq: "turn_response agent response r =
        (case consume agent lines [] r0 of Inl x \<Rightarrow> Inl x | Inr (f, r) \<Rightarrow> Inr (strip f, r))"
    using Some by (simp add: turn_response_def Let_def r0_def role_def)
  from assms obtain f where "consume agent lines [] r0 = Inr (f, r1)"
    unfolding eq by (auto split: sum.splits)
  then have "same_schedule r0 r1"
    using consume_same_schedule [of agent lines "[]" r0 f r1] by blast
  then show ?thesis by (simp add: same_schedule_def r0_def)
qed

lemma turn_Next_completed:
  assumes "turn agent response r = Inr (Next, r')"
  shows "length (completed r') = Suc (length (completed r))"
proof -
  from assms obtain x r1 where tr: "turn_response agent response r = Inr (x, r1)"
    and te: "turn_end agent r1 = (Next, r')"
    by (auto simp: turn_def split: sum.splits)
  from te have "length (completed r') = Suc (length (completed r1))"
    by (auto simp: turn_end_def Let_def split: if_splits)
  with turn_response_keeps [OF tr] show ?thesis by simp
qed

lemma debate_loop_waiting_completed:
  "debate_loop p responses r = Waiting r' \<Longrightarrow>
   length (completed r') = length (completed r) + length responses \<and> running (st r')"
proof (induction responses arbitrary: r)
  case Nil
  then show ?case
    by (auto simp: debate_loop.simps [of p "[]" r] Let_def split: if_splits sum.splits)
next
  case (Cons response rest)
  from Cons.prems obtain agent req r3 where
    t: "turn agent response (r\<lparr>calls := calls r @ [req]\<rparr>) = Inr (Next, r3)"
    and w: "debate_loop p rest r3 = Waiting r'"
    by (auto simp: debate_loop.simps [of p "response # rest" r] Let_def
        split: if_splits sum.splits flow.splits)
  from turn_Next_completed [OF t] Cons.IH [OF w] show ?case by simp
qed

lemma start_debate_loop:
  assumes "\<not> running ds" and "connection w"
    and "current_agent_index ds \<in> {None, Some 0, Some 1}"
  shows "\<exists>r. start_debate p w ds = debate_loop p (generated w) r \<and>
             alternating (initial_index w ds) r \<and> completed r = []"
proof -
  define r0 where "r0 = \<lparr>st = ds, loc_message_count = message_count ds,
               loc_current_agent_index = 0, status_text = [], out = [], calls = [],
               clicks = stop_clicks w, completed = []\<rparr>"
  define r1 where "r1 = (case current_agent_index ds of
                       None \<Rightarrow> r0\<lparr>loc_current_agent_index := of_bool (randint w),
                                 st := (st r0)\<lparr>current_agent_index := Some (of_bool (randint w))\<rparr>\<rparr>
                     | Some i \<Rightarrow> r0\<lparr>loc_current_agent_index := i\<rparr>)"
  define r2 where "r2 = r1\<lparr>status_text := started_text, st := (st r1)\<lparr>running := True\<rparr>\<rparr>"
  have eq: "start_debate p w ds = debate_loop p (generated w) (yield_ui (progress r2) r2)"
    using assms(1,2)
    by (cases "current_agent_index ds"; cases "randint w")
       (simp_all add: start_debate_def Let_def r0_def r1_def r2_def)
  have "alternating (initial_index w ds) r1"
    by (auto simp: alternating_def initial_index_def r1_def r0_def split: option.splits)
  then have "alternating (initial_index w ds) (yield_ui (progress r2) r2)"
    by (simp add: alternating_def r2_def)
  moreover have "completed (yield_ui (progress r2) r2) = []"
    by (simp add: r2_def r1_def r0_def split: option.splits)
  ultimately show ?thesis using eq by blast
qed

text \<open>
  Claim C4 as it is written fails, a completed turn being one whose entry is stored and
  counted. Ann has the first turn; Stop is clicked while the tuple with her only fragment
  is shown, the stream then ends, and lines 343 to 349 leave the loop before the switch of
  line 358. Her entry \<open>Hi\<close> is in the conversation and \<open>message_count\<close> is 1, but the index
  is still the initial index 0 and not \<open>0 XOR (1 mod 2)\<close>; when the debate is started again
  from that state, Ann has the next turn too.
\<close>

theorem stopped_turn_does_not_toggle:
  "(case start_debate demo_params
           \<lparr>connection = True, randint = False, generated = [Some [say ''Hi'']],
            stop_clicks = [False, True]\<rparr>
           initial_state of
      Returned r \<Rightarrow>
        conversation (st r) = [\<lparr>name = py ''Ann'', content = py ''Hi''\<rparr>] \<and>
        message_count (st r) = 1 \<and>
        initial_index \<lparr>connection = True, randint = False, generated = [Some [say ''Hi'']],
                       stop_clicks = [False, True]\<rparr> initial_state = 0 \<and>
        current_agent_index (st r) = Some 0 \<and>
        current_agent_index (st r) \<noteq> Some (0 XOR (1 mod 2)) \<and>
        (case start_debate demo_params
                \<lparr>connection = True, randint = False, generated = [Some [say ''again'']],
                 stop_clicks = []\<rparr>
                (st r) of
           Waiting r2 \<Rightarrow> map name (conversation (st r2)) = [py ''Ann'', py ''Ann'']
         | _ \<Rightarrow> False)
    | _ \<Rightarrow> False)"
  by (simp add: run_defs demo_defs initial_index_def)

text \<open>
  Claim C4, as the code has it. A turn whose response has been handled without an
  exception reaches the check of line 344. If \<open>running\<close> is still true there, the turn goes
  on to line 358 and toggles the index, in the local variable and in the dict; this is so
  for a turn whose generation call failed as well. If \<open>running\<close> is false there (Stop was
  clicked during the turn, even when the whole stream had been consumed and the entry
  stored and counted), the turn leaves the loop with the index as it was. So in any run
  of \<open>start_debate\<close> that gets past the two early returns, from a dict whose index is unset
  or is 0 or 1, that has used the \<open>k\<close> answers it was given and asks for the next (each of
  its \<open>k\<close> turns ended with the debate running, and it is running still), the index in the
  dict is the initial index XOR \<open>k mod 2\<close>.
\<close>

theorem current_agent_index_toggles:
  "(turn_response agent response r = Inr (x, r1) \<and> running (st r1) \<longrightarrow>
      (\<exists>r'. turn agent response r = Inr (Next, r') \<and>
            loc_current_agent_index r' = 1 - loc_current_agent_index r \<and>
            current_agent_index (st r') = Some (1 - loc_current_agent_index r))) \<and>
   (turn_response agent response r = Inr (x, r1) \<and> \<not> running (st r1) \<longrightarrow>
      (\<exists>r'. turn agent response r = Inr (Break, r') \<and>
            loc_current_agent_index r' = loc_current_agent_index r \<and>
            current_agent_index (st r') = Some (loc_current_agent_index r))) \<and>
   (\<not> running ds \<and> connection w \<and> current_agent_index ds \<in> {None, Some 0, Some 1} \<and>
    start_debate p w ds = Waiting rw \<longrightarrow>
      running (st rw) \<and>
      current_agent_index (st rw) =
        Some (initial_index w ds XOR (int (length (generated w)) mod 2)))"
proof -
  have toggled: "\<exists>r'. turn agent response r = Inr (Next, r') \<and>
            loc_current_agent_index r' = 1 - loc_current_agent_index r \<and>
            current_agent_index (st r') = Some (1 - loc_current_agent_index r)"
    if "turn_response agent response r = Inr (x, r1) \<and> running (st r1)"
    using that turn_response_keeps [of agent response r x r1]
    by (simp add: turn_def turn_end_def Let_def)
  have kept: "\<exists>r'. turn agent response r = Inr (Break, r') \<and>
            loc_current_agent_index r' = loc_current_agent_index r \<and>
            current_agent_index (st r') = Some (loc_current_agent_index r)"
    if "turn_response agent response r = Inr (x, r1) \<and> \<not> running (st r1)"
    using that turn_response_keeps [of agent response r x r1]
    by (simp add: turn_def turn_end_def Let_def)
  have waiting: "running (st rw) \<and> current_agent_index (st rw) =
        Some (initial_index w ds XOR (int (length (generated w)) mod 2))"
    if a: "\<not> running ds \<and> connection w \<and> current_agent_index ds \<in> {None, Some 0, Some 1} \<and>
      start_debate p w ds = Waiting rw"
  proof -
    from a obtain r0 where r0: "start_debate p w ds = debate_loop p (generated w) r0"
      "alternating (initial_index w ds) r0" "completed r0 = []"
      using start_debate_loop [of ds w p] by blast
    from a have "initial_index w ds \<in> {0, 1}"
      by (auto simp: initial_index_def)
    with r0(2) have "alternating (initial_index w ds) (frame (debate_loop p (generated w) r0))"
      by (rule debate_loop_alternating)
    moreover have "length (completed rw) = length (generated w) \<and> running (st rw)"
      using debate_loop_waiting_completed [of p "generated w" r0 rw] a r0 by simp
    ultimately have "alternating (initial_index w ds) rw"
      "length (completed rw) = length (generated w)" "running (st rw)"
      using a r0(1) by simp_all
    then show ?thesis by (simp add: alternating_def)
  qed
  from toggled kept waiting show ?thesis by blast
qed

text \<open>
  Ann's first turn with the one fragment \<open>Hi\<close>, without a click and with a click on Stop
  while the fragment is shown; and a run from the initial state in which the draw is 1, two
  turns succeed, the third call fails on a transcript that is not empty, and the run asks
  for a fourth answer.
\<close>

theorem current_agent_index_toggles_witness:
  "turn_response (hd (agents demo_params)) (Some [say ''Hi'']) (demo_frame 0) =
     Inr (fst (projr (turn_response (hd (agents demo_params)) (Some [say ''Hi'']) (demo_frame 0))),
          snd (projr (turn_response (hd (agents demo_params)) (Some [say ''Hi'']) (demo_frame 0)))) \<and>
   running (st (snd (projr (turn_response (hd (agents demo_params)) (Some [say ''Hi''])
                       (demo_frame 0))))) \<and>
   (case turn (hd (agents demo_params)) (Some [say ''Hi'']) (demo_frame 0) of
      Inr (Next, r') \<Rightarrow>
        loc_current_agent_index r' = 1 \<and> current_agent_index (st r') = Some 1 \<and>
        conversation (st r') = [\<lparr>name = py ''Ann'', content = py ''Hi''\<rparr>]
    | _ \<Rightarrow> False) \<and>
   turn_response (hd (agents demo_params)) (Some [say ''Hi''])
       ((demo_frame 0)\<lparr>clicks := [True]\<rparr>) =
     Inr (fst (projr (turn_response (hd (agents demo_params)) (Some [say ''Hi''])
                        ((demo_frame 0)\<lparr>clicks := [True]\<rparr>))),
          snd (projr (turn_response (hd (agents demo_params)) (Some [say ''Hi''])
                        ((demo_frame 0)\<lparr>clicks := [True]\<rparr>)))) \<and>
   \<not> running (st (snd (projr (turn_response (hd (agents demo_params)) (Some [say ''Hi''])
                         ((demo_frame 0)\<lparr>clicks := [True]\<rparr>))))) \<and>
   (case turn (hd (agents demo_params)) (Some [say ''Hi''])
           ((demo_frame 0)\<lparr>clicks := [True]\<rparr>) of
      Inr (Break, r') \<Rightarrow>
        loc_current_agent_index r' = 0 \<and> current_agent_index (st r') = Some 0 \<and>
        conversation (st r') = [\<lparr>name = py ''Ann'', content = py ''Hi''\<rparr>] \<and>
        message_count (st r') = 1
    | _ \<Rightarrow> False) \<and>
   \<not> running initial_state \<and>
   connection \<lparr>connection = True, randint = True,
          generated = [Some [say ''Hi'', done_record], Some [say ''Yo''], None],
          stop_clicks = []\<rparr> \<and>
   current_agent_index initial_state \<in> {None, Some 0, Some 1} \<and>
   start_debate demo_params \<lparr>connection = True, randint = True,
          generated = [Some [say ''Hi'', done_record], Some [say ''Yo''], None],
          stop_clicks = []\<rparr> initial_state =
     Waiting (frame (start_debate demo_params \<lparr>connection = True, randint = True,
          generated = [Some [say ''Hi'', done_record], Some [say ''Yo''], None],
          stop_clicks = []\<rparr> initial_state)) \<and>
   initial_index \<lparr>connection = True, randint = True,
          generated = [Some [say ''Hi'', done_record], Some [say ''Yo''], None],
          stop_clicks = []\<rparr> initial_state = 1 \<and>
   length (generated \<lparr>connection = True, randint = True,
          generated = [Some [say ''Hi'', done_record], Some [say ''Yo''], None],
          stop_clicks = []\<rparr>) = 3 \<and>
   running (st (frame (start_debate demo_params \<lparr>connection = True, randint = True,
          generated = [Some [say ''Hi'', done_record], Some [say ''Yo''], None],
          stop_clicks = []\<rparr> initial_state))) \<and>
   current_agent_index (st (frame (start_debate demo_params \<lparr>connection = True, randint = True,
          generated = [Some [say ''Hi'', done_record], Some [say ''Yo''], None],
          stop_clicks = []\<rparr> initial_state))) =
     Some (1 XOR (3 mod 2))"
  using current_agent_index_toggles [of "hd (agents demo_params)" "Some [say ''Hi'']"
      "demo_frame 0"
      "fst (projr (turn_response (hd (agents demo_params)) (Some [say ''Hi'']) (demo_frame 0)))"
      "snd (projr (turn_response (hd (agents demo_params)) (Some [say ''Hi'']) (demo_frame 0)))"
      initial_state "\<lparr>connection = True, randint = True,
          generated = [Some [say ''Hi'', done_record], Some [say ''Yo''], None],
          stop_clicks = []\<rparr>" demo_params
      "frame (start_debate demo_params \<lparr>connection = True, randint = True,
          generated = [Some [say ''Hi'', done_record], Some [say ''Yo''], None],
          stop_clicks = []\<rparr> initial_state)"]
    current_agent_index_toggles [of "hd (agents demo_params)" "Some [say ''Hi'']"
      "(demo_frame 0)\<lparr>clicks := [True]\<rparr>"
      "fst (projr (turn_response (hd (agents demo_params)) (Some [say ''Hi''])
                     ((demo_frame 0)\<lparr>clicks := [True]\<rparr>)))"
      "snd (projr (turn_response (hd (agents demo_params)) (Some [say ''Hi''])
                     ((demo_frame 0)\<lparr>clicks := [True]\<rparr>)))"
      initial_state "\<lparr>connection = True, randint = True,
          generated = [Some [say ''Hi'', done_record], Some [say ''Yo''], None],
          stop_clicks = []\<rparr>" demo_params
      "frame (start_debate demo_params \<lparr>connection = True, randint = True,
          generated = [Some [say ''Hi'', done_record], Some [say ''Yo''], None],
          stop_clicks = []\<rparr> initial_state)"]
  by (simp add: run_defs demo_defs initial_index_def)

section \<open>The message limit\<close>

lemma turn_Some_count:
  assumes "turn agent (Some lines) r = Inr (fl, r')"
  shows "loc_message_count r' = loc_message_count r + 1 \<and> calls r' = calls r \<and>
         length (conversation (st r')) = length (conversation (st r)) + 1"
proof -
  define role where "role = (if loc_current_agent_index r = 0 then py ''user'' else py ''assistant'')"
  define r1 where "r1 = r\<lparr>st := (st r)\<lparr>chat_history := chat_history (st r) @
               [\<lparr>role = role, chat_content = agent_name agent @ py '': ''\<rparr>],
               conversation := conversation (st r) @ [\<lparr>name = agent_name agent, content = []\<rparr>]\<rparr>,
             loc_message_count := loc_message_count r + 1\<rparr>"
  have eq: "turn_response agent (Some lines) r =
        (case consume agent lines [] r1 of Inl x \<Rightarrow> Inl x | Inr (f, r) \<Rightarrow> Inr (strip f, r))"
    by (simp add: turn_response_def Let_def r1_def role_def)
  from assms obtain f r2 where c: "consume agent lines [] r1 = Inr (f, r2)"
    and te: "turn_end agent r2 = (fl, r')"
    unfolding turn_def eq by (auto split: sum.splits)
  from c have "same_schedule r1 r2"
    using consume_same_schedule [of agent lines "[]" r1 f r2] by blast
  then have r2: "loc_message_count r2 = loc_message_count r + 1" "calls r2 = calls r"
    "length (conversation (st r2)) = length (conversation (st r)) + 1"
    by (simp_all add: same_schedule_def r1_def)
  from te have "loc_message_count r' = loc_message_count r2 \<and> calls r' = calls r2 \<and>
    conversation (st r') = conversation (st r2)"
    by (auto simp: turn_end_def Let_def split: if_splits)
  with r2 show ?thesis by simp
qed

lemma after_loop_limit:
  "1000 \<le> loc_message_count r \<Longrightarrow>
   \<not> running (st (after_loop r)) \<and> status_text (after_loop r) = limit_text \<and>
   status (last (out (after_loop r))) = Some limit_text \<and>
   calls (after_loop r) = calls r \<and> completed (after_loop r) = completed r \<and>
   conversation (st (after_loop r)) = conversation (st r) \<and>
   message_count (st (after_loop r)) = loc_message_count r"
  by (simp add: after_loop_def Let_def halted_def)


text \<open>
  Claim C7. Whenever the loop condition is evaluated with \<open>message_count\<close> at 1000 or more,
  whatever \<open>running\<close> is and whatever answers and clicks are still to come, the loop is left
  and the generator returns with \<open>running\<close> false and the status
  \<open>"Debate ended after reaching message limit."\<close>, having made no call and run no turn. In
  particular, from \<open>message_count = 999\<close> with the debate running, one more turn whose
  generation call succeeds and which ends without an exception, stopped or not, adds one
  entry, brings \<open>message_count\<close> to 1000 and ends the run in that way.
\<close>

theorem message_limit_halts:
  "(1000 \<le> loc_message_count r \<longrightarrow>
      (\<exists>r'. debate_loop p responses r = Returned r' \<and> \<not> running (st r') \<and>
            status_text r' = limit_text \<and> status (last (out r')) = Some limit_text \<and>
            calls r' = calls r \<and> completed r' = completed r \<and>
            conversation (st r') = conversation (st r) \<and>
            message_count (st r') = loc_message_count r)) \<and>
   (loc_message_count r = 999 \<and> running (st r) \<and> turn_request p r = Inr (agent, req) \<and>
    turn agent (Some lines) (r\<lparr>calls := calls r @ [req]\<rparr>) = Inr (fl, r1) \<longrightarrow>
      (\<exists>r'. debate_loop p (Some lines # rest) r = Returned r' \<and> message_count (st r') = 1000 \<and>
            \<not> running (st r') \<and> status_text r' = limit_text \<and>
            status (last (out r')) = Some limit_text \<and> calls r' = calls r @ [req] \<and>
            length (conversation (st r')) = length (conversation (st r)) + 1))"
proof (intro conjI impI)
  assume "1000 \<le> loc_message_count r"
  then have "debate_loop p responses r = Returned (after_loop r)"
    by (intro debate_loop_exit) simp
  with \<open>1000 \<le> loc_message_count r\<close> after_loop_limit [of r]
  show "\<exists>r'. debate_loop p responses r = Returned r' \<and> \<not> running (st r') \<and>
            status_text r' = limit_text \<and> status (last (out r')) = Some limit_text \<and>
            calls r' = calls r \<and> completed r' = completed r \<and>
            conversation (st r') = conversation (st r) \<and>
            message_count (st r') = loc_message_count r"
    by simp
next
  assume a: "loc_message_count r = 999 \<and> running (st r) \<and> turn_request p r = Inr (agent, req) \<and>
    turn agent (Some lines) (r\<lparr>calls := calls r @ [req]\<rparr>) = Inr (fl, r1)"
  then have r1: "loc_message_count r1 = 1000" "calls r1 = calls r @ [req]"
    "length (conversation (st r1)) = length (conversation (st r)) + 1"
    using turn_Some_count [of agent lines "r\<lparr>calls := calls r @ [req]\<rparr>" fl r1] by simp_all
  have "debate_loop p (Some lines # rest) r =
          (case fl of Break \<Rightarrow> Returned (after_loop r1) | Next \<Rightarrow> debate_loop p rest r1)"
    using a by (simp add: debate_loop_turn)
  moreover have "debate_loop p rest r1 = Returned (after_loop r1)"
    using r1(1) by (intro debate_loop_exit) simp
  ultimately have "debate_loop p (Some lines # rest) r = Returned (after_loop r1)"
    by (cases fl) simp_all
  with r1 after_loop_limit [of r1]
  show "\<exists>r'. debate_loop p (Some lines # rest) r = Returned r' \<and> message_count (st r') = 1000 \<and>
            \<not> running (st r') \<and> status_text r' = limit_text \<and>
            status (last (out r')) = Some limit_text \<and> calls r' = calls r @ [req] \<and>
            length (conversation (st r')) = length (conversation (st r)) + 1"
    by simp
qed

theorem message_limit_halts_witness:
  "1000 \<le> loc_message_count (demo_frame 1000) \<and>
   (case debate_loop demo_params [Some [say ''Hi'']] (demo_frame 1000) of
      Returned r' \<Rightarrow> \<not> running (st r') \<and> status_text r' = limit_text \<and> calls r' = [] \<and>
                     message_count (st r') = 1000
    | _ \<Rightarrow> False) \<and>
   loc_message_count (demo_frame 999) = 999 \<and> running (st (demo_frame 999)) \<and>
   turn_request demo_params (demo_frame 999) =
     Inr (hd (agents demo_params), snd (projr (turn_request demo_params (demo_frame 999)))) \<and>
   turn (hd (agents demo_params)) (Some [say ''Hi'', done_record])
        ((demo_frame 999)\<lparr>calls := calls (demo_frame 999) @
            [snd (projr (turn_request demo_params (demo_frame 999)))]\<rparr>) =
     Inr (Next, snd (projr (turn (hd (agents demo_params)) (Some [say ''Hi'', done_record])
        ((demo_frame 999)\<lparr>calls := calls (demo_frame 999) @
            [snd (projr (turn_request demo_params (demo_frame 999)))]\<rparr>)))) \<and>
   (case debate_loop demo_params [Some [say ''Hi'', done_record], Some [say ''Yo'']] (demo_frame 999) of
      Returned r' \<Rightarrow> message_count (st r') = 1000 \<and> \<not> running (st r') \<and>
                     status_text r' = limit_text \<and> status (last (out r')) = Some limit_text \<and>
                     length (calls r') = 1 \<and> length (conversation (st r')) = 1
    | _ \<Rightarrow> False)"
  using message_limit_halts [of "demo_frame 1000" demo_params "[Some [say ''Hi'']]"
      "hd (agents demo_params)" "snd (projr (turn_request demo_params (demo_frame 1000)))"
      "[]" Next "demo_frame 1000" "[]"]
    message_limit_halts [of "demo_frame 999" demo_params "[]"
      "hd (agents demo_params)" "snd (projr (turn_request demo_params (demo_frame 999)))"
      "[say ''Hi'', done_record]" Next
      "snd (projr (turn (hd (agents demo_params)) (Some [say ''Hi'', done_record])
        ((demo_frame 999)\<lparr>calls := calls (demo_frame 999) @
            [snd (projr (turn_request demo_params (demo_frame 999)))]\<rparr>)))"
      "[Some [say ''Yo'']]"]
  by (simp add: run_defs demo_defs)

end
